theory Spec2Isabelle
  imports Complex_Main
begin

section \<open>Real-time laughter detection: the rolling buffer, the consumer loop and framing\<close>

text \<open>
  The development embeds \<^verbatim>\<open>src/realtime/listen_and_detect.py\<close> (the function
  \<^verbatim>\<open>stream_and_detect\<close>) and \<^verbatim>\<open>src/utils/audio_features.py\<close> (the functions
  \<^verbatim>\<open>extract_features\<close> and \<^verbatim>\<open>frame_audio\<close>). The floats that decide a sample
  count are IEEE doubles with their rounding, infinities and NaN; a probability and the
  threshold it is compared with are the finite reals they denote; the audio samples of
  the rolling buffer are kept polymorphic, with a zero for silence.
\<close>

subsection \<open>Errors\<close>

datatype error =
    ValueError
  | OverflowError
  | MemoryError
  | FileNotFoundError
  | ModelLoadError
  | DatabaseError
  | PortAudioError
  | ExtractionError
  | ClassifierError

subsection \<open>Python floats\<close>

text \<open>A Python float: a finite double, written as the real number it denotes, or one of
  the three special values. Signed zeros are not told apart.\<close>

datatype pyfloat = Fin real | PosInf | NegInf | NaN


definition pow2 :: "int \<Rightarrow> real" where
  "pow2 e = (if 0 \<le> e then 2 ^ nat e else 1 / 2 ^ nat (- e))"

text \<open>
  The binary exponent of a positive real, kept within the range of the doubles: the
  \<open>e\<close> with \<open>2^e \<le> a < 2^(e+1)\<close>, but \<open>-1022\<close> for everything below (the subnormal
  range) and \<open>1023\<close> for everything above. The search is bounded by the exponent range.
\<close>

fun exponent_up :: "nat \<Rightarrow> int \<Rightarrow> real \<Rightarrow> int" where
  "exponent_up 0 e a = e"
| "exponent_up (Suc n) e a = (if a < pow2 (e + 1) then e else exponent_up n (e + 1) a)"

fun exponent_down :: "nat \<Rightarrow> int \<Rightarrow> real \<Rightarrow> int" where
  "exponent_down 0 e a = e"
| "exponent_down (Suc n) e a = (if pow2 e \<le> a then e else exponent_down n (e - 1) a)"

definition float_exponent :: "real \<Rightarrow> int" where
  "float_exponent a = (if 1 \<le> a then exponent_up 1023 0 a else exponent_down 1021 (- 1) a)"

definition round_half_even :: "real \<Rightarrow> int" where
  "round_half_even q =
     (let f = \<lfloor>q\<rfloor>; d = q - of_int f
      in if d < 1 / 2 then f else if 1 / 2 < d then f + 1 else if even f then f else f + 1)"

text \<open>
  Rounding a real to the nearest double, ties to even (53 significant bits, gradual
  underflow); a result of magnitude \<open>2^1024\<close> or more is an infinity.
\<close>

definition round_double :: "real \<Rightarrow> pyfloat" where
  "round_double x =
     (if x = 0 then Fin 0
      else (let a = \<bar>x\<bar>;
                ulp = pow2 (float_exponent a - 52);
                r = of_int (round_half_even (a / ulp)) * ulp
            in if pow2 1024 \<le> r then (if 0 < x then PosInf else NegInf)
               else Fin (if 0 < x then r else - r)))"

text \<open>The product of two floats.\<close>

fun float_mul :: "pyfloat \<Rightarrow> pyfloat \<Rightarrow> pyfloat" where
  "float_mul (Fin x) (Fin y) = round_double (x * y)"
| "float_mul NaN _ = NaN"
| "float_mul _ NaN = NaN"
| "float_mul PosInf (Fin y) = (if y = 0 then NaN else if 0 < y then PosInf else NegInf)"
| "float_mul NegInf (Fin y) = (if y = 0 then NaN else if 0 < y then NegInf else PosInf)"
| "float_mul (Fin x) PosInf = (if x = 0 then NaN else if 0 < x then PosInf else NegInf)"
| "float_mul (Fin x) NegInf = (if x = 0 then NaN else if 0 < x then NegInf else PosInf)"
| "float_mul PosInf PosInf = PosInf"
| "float_mul PosInf NegInf = NegInf"
| "float_mul NegInf PosInf = NegInf"
| "float_mul NegInf NegInf = PosInf"

text \<open>An \<^verbatim>\<open>int\<close> operand of a float product is converted first; a value beyond the
  doubles raises \<^verbatim>\<open>OverflowError\<close>.\<close>

definition int_to_float :: "int \<Rightarrow> error + pyfloat" where
  "int_to_float k =
     (case round_double (of_int k) of
        Fin x \<Rightarrow> Inr (Fin x)
      | PosInf \<Rightarrow> Inl OverflowError
      | NegInf \<Rightarrow> Inl OverflowError
      | NaN \<Rightarrow> Inl OverflowError)"

definition trunc :: "real \<Rightarrow> int" where
  "trunc x = (if 0 \<le> x then \<lfloor>x\<rfloor> else \<lceil>x\<rceil>)"

text \<open>Python's \<^verbatim>\<open>int(x)\<close> on a float truncates towards zero; it raises
  \<^verbatim>\<open>ValueError\<close> on NaN and \<^verbatim>\<open>OverflowError\<close> on an infinity.\<close>

fun py_int :: "pyfloat \<Rightarrow> error + int" where
  "py_int (Fin x) = Inr (trunc x)"
| "py_int NaN = Inl ValueError"
| "py_int PosInf = Inl OverflowError"
| "py_int NegInf = Inl OverflowError"

text \<open>
  The expression \<^verbatim>\<open>int(seconds * sr)\<close> with a float \<^verbatim>\<open>seconds\<close> and an integer
  \<^verbatim>\<open>sr\<close>, as it stands on lines 61 and 63 of \<^verbatim>\<open>listen_and_detect.py\<close> and on lines 50
  and 51 of \<^verbatim>\<open>audio_features.py\<close>.
\<close>

definition sample_count :: "pyfloat \<Rightarrow> int \<Rightarrow> error + int" where
  "sample_count seconds sr =
     (case int_to_float sr of
        Inl e \<Rightarrow> Inl e
      | Inr srf \<Rightarrow> py_int (float_mul seconds srf))"

text \<open>
  \<^verbatim>\<open>np.zeros(k)\<close>: a negative dimension raises \<^verbatim>\<open>ValueError\<close>; whether an array of
  \<open>k\<close> elements can be allocated, and what is raised when it cannot, is the host's.
\<close>

definition np_zeros :: "(int \<Rightarrow> error option) \<Rightarrow> int \<Rightarrow> error + ('a::zero) list" where
  "np_zeros refused k =
     (if k < 0 then Inl ValueError
      else (case refused k of
              Some e \<Rightarrow> Inl e
            | None \<Rightarrow> Inr (replicate (nat k) 0)))"

subsection \<open>The rolling buffer update (lines 80 and 81)\<close>

text \<open>
  \<^verbatim>\<open>np.roll(a, -n)\<close> on a one-dimensional array: the shift is reduced modulo the length
  and the two slices are swapped; the empty array is returned as it is.
\<close>

definition np_roll_left :: "nat \<Rightarrow> 'a list \<Rightarrow> 'a list" where
  "np_roll_left n a =
     (if a = [] then []
      else (let k = n mod length a in drop k a @ take k a))"

text \<open>
  \<^verbatim>\<open>a[-n:] = v\<close> with \<^verbatim>\<open>n = len(v)\<close>. The slice \<^verbatim>\<open>a[-n:]\<close> starts at
  \<^verbatim>\<open>max(0, len(a) - n)\<close> when \<^verbatim>\<open>n > 0\<close>, and at \<^verbatim>\<open>0\<close> when \<^verbatim>\<open>n = 0\<close>
  (since \<^verbatim>\<open>-0\<close> is \<^verbatim>\<open>0\<close>). The value is copied when its length is the slice's,
  broadcast when it has exactly one element, and \<^verbatim>\<open>ValueError\<close> is raised otherwise.
\<close>

definition assign_tail :: "'a list \<Rightarrow> 'a list \<Rightarrow> error + 'a list" where
  "assign_tail a v =
     (let n = length v;
          start = (if n = 0 then 0 else length a - n);
          m = length a - start
      in if n = m then Inr (take start a @ v)
         else if n = 1 then Inr (take start a @ replicate m (hd v))
         else Inl ValueError)"

definition push :: "'a list \<Rightarrow> 'a list \<Rightarrow> error + 'a list" where
  "push buf block = assign_tail (np_roll_left (length block) buf) block"

text \<open>Folding a sequence of blocks into the buffer; the first exception ends the run.\<close>

fun push_all :: "'a list \<Rightarrow> 'a list list \<Rightarrow> error + 'a list" where
  "push_all buf [] = Inr buf"
| "push_all buf (block # blocks) =
     (case push buf block of
        Inl e \<Rightarrow> Inl e
      | Inr buf' \<Rightarrow> push_all buf' blocks)"

text \<open>The last \<open>k\<close> elements of a list (the whole list when it is shorter).\<close>

definition lastn :: "nat \<Rightarrow> 'a list \<Rightarrow> 'a list" where
  "lastn k xs = drop (length xs - k) xs"

subsection \<open>The pipeline: arguments, collaborators and state\<close>

text \<open>
  The namespace returned by \<^verbatim>\<open>parse_args\<close>: four options, no check beyond the parse.
  The window and the hop are any float the parser accepts; the threshold is taken finite.
\<close>

record args =
  args_location :: string
  args_threshold :: real
  args_window :: pyfloat
  args_hop :: pyfloat

text \<open>
  What lies outside the repository is a parameter: whether the database can be initialised,
  whether the model file exists, whether \<^verbatim>\<open>joblib.load\<close> can read it, whether the zero
  buffer can be allocated, whether the audio stream opens with a given block size, the call
  of \<^verbatim>\<open>extract_features\<close> on line 84 and the loaded classifier's
  \<^verbatim>\<open>predict_proba(...)[0][1]\<close>. The last two may raise.
\<close>

record ('a, 'f) world =
  db_ok :: bool
  model_exists :: bool
  model_loads :: bool
  zeros_refused :: "int \<Rightarrow> error option"
  stream_opens :: "int \<Rightarrow> bool"
  extract_features :: "'a list \<Rightarrow> error + 'f"
  predict_proba :: "'f \<Rightarrow> error + real"

text \<open>A row written by \<^verbatim>\<open>log_event\<close> (the wall-clock timestamp is left out).\<close>

record detection =
  ev_location :: string
  ev_probability :: real

record 'a state =
  audio_buffer :: "'a list"
  q_in :: "'a list list"
  events :: "detection list"

text \<open>
  Lines 50 to 72 of \<^verbatim>\<open>stream_and_detect\<close>, in their order: the database, the model
  (\<^verbatim>\<open>load_model\<close> checks that the file exists and then loads it), the block size, the
  zero buffer, the unbounded queue and the opening of the input stream.
\<close>

definition startup :: "('a::zero, 'f) world \<Rightarrow> args \<Rightarrow> error + 'a state" where
  "startup w a =
     (if \<not> db_ok w then Inl DatabaseError
      else if \<not> model_exists w then Inl FileNotFoundError
      else if \<not> model_loads w then Inl ModelLoadError
      else (let sr = 16000
            in case sample_count (args_hop a) sr of
                 Inl e \<Rightarrow> Inl e
               | Inr block_size \<Rightarrow>
                   (case sample_count (args_window a) sr of
                      Inl e \<Rightarrow> Inl e
                    | Inr n \<Rightarrow>
                        (case np_zeros (zeros_refused w) n of
                           Inl e \<Rightarrow> Inl e
                         | Inr buf \<Rightarrow>
                             if \<not> stream_opens w block_size then Inl PortAudioError
                             else Inr \<lparr>audio_buffer = buf, q_in = [], events = []\<rparr>))))"

text \<open>\<^verbatim>\<open>audio_callback\<close>: \<^verbatim>\<open>q_in.put\<close> on a queue created without a maximum size.\<close>

definition audio_callback :: "'a state \<Rightarrow> 'a list \<Rightarrow> 'a state" where
  "audio_callback st indata = st\<lparr>q_in := q_in st @ [indata]\<rparr>"

text \<open>Lines 84 and 85: the features of the window, then the classifier's probability.\<close>

definition score :: "('a, 'f) world \<Rightarrow> 'a list \<Rightarrow> error + real" where
  "score w buf =
     (case extract_features w buf of
        Inl e \<Rightarrow> Inl e
      | Inr feat \<Rightarrow> predict_proba w feat)"

text \<open>Lines 79 to 88: fold the block into the buffer, classify, compare, log.\<close>

definition detect :: "('a, 'f) world \<Rightarrow> args \<Rightarrow> 'a state \<Rightarrow> 'a list \<Rightarrow> error + 'a state" where
  "detect w a st block =
     (case push (audio_buffer st) block of
        Inl e \<Rightarrow> Inl e
      | Inr buf \<Rightarrow>
          (case score w buf of
             Inl e \<Rightarrow> Inl e
           | Inr prob \<Rightarrow>
               if prob \<ge> args_threshold a
               then Inr (st\<lparr>audio_buffer := buf,
                           events := events st @ [\<lparr>ev_location = args_location a, ev_probability = prob\<rparr>]\<rparr>)
               else Inr (st\<lparr>audio_buffer := buf\<rparr>)))"

text \<open>
  One pass of the \<^verbatim>\<open>while True\<close> body: \<^verbatim>\<open>queue.Empty\<close> after the timeout is the only
  exception caught, and it leaves the state as it is.
\<close>

definition loop_iteration :: "('a, 'f) world \<Rightarrow> args \<Rightarrow> 'a state \<Rightarrow> error + 'a state" where
  "loop_iteration w a st =
     (case q_in st of
        [] \<Rightarrow> Inr st
      | block # rest \<Rightarrow> detect w a (st\<lparr>q_in := rest\<rparr>) block)"

text \<open>
  The producer and the consumer interleave: a schedule lists, in order, each delivery of a
  block by the audio callback and each pass of the consumer loop. An exception that
  leaves the loop ends the program; the rows already written stay in the database.
\<close>

datatype 'a occurrence = Callback "'a list" | Iteration

datatype 'a outcome = Listening "'a state" | Crashed error "detection list"

fun listen :: "('a, 'f) world \<Rightarrow> args \<Rightarrow> 'a state \<Rightarrow> 'a occurrence list \<Rightarrow> 'a outcome" where
  "listen w a st [] = Listening st"
| "listen w a st (Callback indata # sched) = listen w a (audio_callback st indata) sched"
| "listen w a st (Iteration # sched) =
     (case loop_iteration w a st of
        Inl e \<Rightarrow> Crashed e (events st)
      | Inr st' \<Rightarrow> listen w a st' sched)"

text \<open>Clamping to the unit interval, as the specification words it; the source has no such step.\<close>

definition spec_clamp :: "real \<Rightarrow> real" where
  "spec_clamp p = max 0 (min 1 p)"

subsection \<open>Framing (\<^verbatim>\<open>frame_audio\<close>)\<close>

text \<open>Python's \<^verbatim>\<open>xs[i:j]\<close>: negative indices count from the end, then both are clipped.\<close>

definition py_slice :: "'a list \<Rightarrow> int \<Rightarrow> int \<Rightarrow> 'a list" where
  "py_slice xs i j =
     (let n = int (length xs);
          lo = (if i < 0 then max 0 (i + n) else min i n);
          hi = (if j < 0 then max 0 (j + n) else min j n)
      in take (nat (hi - lo)) (drop (nat lo) xs))"

text \<open>
  The \<^verbatim>\<open>for start in range(0, stop, hop)\<close> loop, entered at \<open>start\<close>; a negative step gives
  an empty range here, and a zero step is refused before the loop.
\<close>

function frame_loop ::
  "'a list \<Rightarrow> int \<Rightarrow> int \<Rightarrow> int \<Rightarrow> int \<Rightarrow> int \<Rightarrow> ('a list \<times> int) list" where
  "frame_loop audio sr win hop stop start =
     (if hop \<le> 0 \<or> stop \<le> start then []
      else (let end' = start + win
            in if end' > int (length audio) then []
               else (py_slice audio start end', sr) # frame_loop audio sr win hop stop (start + hop)))"
  by pat_completeness auto
termination
  by (relation "measure (\<lambda>(audio, sr, win, hop, stop, start). nat (stop - start))") auto

declare frame_loop.simps [simp del]

definition frame_audio ::
  "'a list \<Rightarrow> int \<Rightarrow> pyfloat \<Rightarrow> pyfloat \<Rightarrow> error + ('a list \<times> int) list" where
  "frame_audio audio sr window_seconds hop_seconds =
     (case sample_count window_seconds sr of
        Inl e \<Rightarrow> Inl e
      | Inr win \<Rightarrow>
          (case sample_count hop_seconds sr of
             Inl e \<Rightarrow> Inl e
           | Inr hop \<Rightarrow>
               if hop = 0 then Inl ValueError
               else Inr (frame_loop audio sr win hop (max 1 (int (length audio) - win + 1)) 0)))"

subsection \<open>Feature extraction (\<^verbatim>\<open>extract_features\<close>)\<close>






subsection \<open>Evaluating the float conversions\<close>

lemma exponent_up_numeral [simp]:
  "exponent_up (numeral k) e a
     = (if a < pow2 (e + 1) then e else exponent_up (pred_numeral k) (e + 1) a)"
  by (simp add: numeral_eq_Suc)

lemma exponent_down_numeral [simp]:
  "exponent_down (numeral k) e a
     = (if pow2 e \<le> a then e else exponent_down (pred_numeral k) (e - 1) a)"
  by (simp add: numeral_eq_Suc)

lemma int_to_float_16000: "int_to_float 16000 = Inr (Fin 16000)"
  unfolding int_to_float_def round_double_def Let_def
  apply (simp add: float_exponent_def pow2_def)
  apply (simp add: round_half_even_def pow2_def Let_def)
  done

lemma int_to_float_10: "int_to_float 10 = Inr (Fin 10)"
  unfolding int_to_float_def round_double_def Let_def
  apply (simp add: float_exponent_def pow2_def)
  apply (simp add: round_half_even_def pow2_def Let_def)
  done

lemma sample_count_1s: "sample_count (Fin 1) 16000 = Inr 16000"
  unfolding sample_count_def
  apply (simp only: int_to_float_16000 sum.case float_mul.simps)
  unfolding round_double_def Let_def
  apply (simp add: float_exponent_def pow2_def)
  apply (simp add: round_half_even_def pow2_def trunc_def Let_def)
  done

lemma sample_count_2s: "sample_count (Fin 2) 16000 = Inr 32000"
  unfolding sample_count_def
  apply (simp only: int_to_float_16000 sum.case float_mul.simps)
  unfolding round_double_def Let_def
  apply (simp add: float_exponent_def pow2_def)
  apply (simp add: round_half_even_def pow2_def trunc_def Let_def)
  done

lemma sample_count_3s: "sample_count (Fin 3) 16000 = Inr 48000"
  unfolding sample_count_def
  apply (simp only: int_to_float_16000 sum.case float_mul.simps)
  unfolding round_double_def Let_def
  apply (simp add: float_exponent_def pow2_def)
  apply (simp add: round_half_even_def pow2_def trunc_def Let_def)
  done

lemma sample_count_4s: "sample_count (Fin 4) 16000 = Inr 64000"
  unfolding sample_count_def
  apply (simp only: int_to_float_16000 sum.case float_mul.simps)
  unfolding round_double_def Let_def
  apply (simp add: float_exponent_def pow2_def)
  apply (simp add: round_half_even_def pow2_def trunc_def Let_def)
  done

text \<open>The double nearest to 0.3 is 5404319552844595 / 2^54.\<close>

lemma sample_count_03s:
  "sample_count (Fin (5404319552844595 / 18014398509481984)) 16000 = Inr 4800"
  unfolding sample_count_def
  apply (simp only: int_to_float_16000 sum.case float_mul.simps)
  unfolding round_double_def Let_def
  apply (simp add: float_exponent_def pow2_def)
  apply (simp add: round_half_even_def pow2_def trunc_def Let_def)
  done

lemma sample_count_03s_10:
  "sample_count (Fin (5404319552844595 / 18014398509481984)) 10 = Inr 3"
  unfolding sample_count_def
  apply (simp only: int_to_float_10 sum.case float_mul.simps)
  unfolding round_double_def Let_def
  apply (simp add: float_exponent_def pow2_def)
  apply (simp add: round_half_even_def pow2_def trunc_def Let_def)
  done

lemma sample_count_special:
  "sample_count NaN 16000 = Inl ValueError"
  "sample_count PosInf 16000 = Inl OverflowError"
  "sample_count NegInf 16000 = Inl OverflowError"
  by (simp_all add: sample_count_def int_to_float_16000)

lemma np_zeros_Inr:
  "np_zeros refused c = Inr buf \<longleftrightarrow> 0 \<le> c \<and> refused c = None \<and> buf = replicate (nat c) 0"
  by (cases "refused c") (auto simp: np_zeros_def)

lemma startup_Inr_iff:
  "startup w a = Inr st \<longleftrightarrow>
     db_ok w \<and> model_exists w \<and> model_loads w
     \<and> (\<exists>b n. sample_count (args_hop a) 16000 = Inr b
              \<and> sample_count (args_window a) 16000 = Inr n
              \<and> 0 \<le> n \<and> zeros_refused w n = None \<and> stream_opens w b
              \<and> st = \<lparr>audio_buffer = replicate (nat n) 0, q_in = [], events = []\<rparr>)"
proof (cases "sample_count (args_hop a) 16000")
  case (Inl e)
  then show ?thesis by (simp add: startup_def)
next
  case hop: (Inr b)
  show ?thesis
  proof (cases "sample_count (args_window a) 16000")
    case (Inl e)
    with hop show ?thesis by (simp add: startup_def)
  next
    case win: (Inr n)
    show ?thesis
    proof (cases "np_zeros (zeros_refused w) n :: error + 'a list")
      case (Inl e)
      then have "\<not> (0 \<le> n \<and> zeros_refused w n = None)"
        by (cases "zeros_refused w n") (auto simp: np_zeros_def split: if_splits)
      with hop win Inl show ?thesis by (auto simp: startup_def)
    next
      case (Inr buf)
      then have "0 \<le> n" "zeros_refused w n = None" "buf = replicate (nat n) 0"
        by (simp_all add: np_zeros_Inr)
      with hop win Inr show ?thesis by (auto simp: startup_def)
    qed
  qed
qed

subsection \<open>Facts about the rolling buffer\<close>

lemma push_in_range:
  assumes "0 < length block" and "length block \<le> length buf"
  shows "push buf block = Inr (drop (length block) buf @ block)"
proof (cases "length block = length buf")
  case True
  with assms have "buf \<noteq> []" by auto
  with True show ?thesis
    by (simp add: push_def np_roll_left_def assign_tail_def Let_def)
next
  case False
  with assms have lt: "length block < length buf" by simp
  then have ne: "buf \<noteq> []" by auto
  have roll: "np_roll_left (length block) buf = drop (length block) buf @ take (length block) buf"
    using lt ne by (simp add: np_roll_left_def Let_def)
  have len: "length (np_roll_left (length block) buf) = length buf"
    unfolding roll by simp
  show ?thesis
    using assms lt by (simp add: push_def assign_tail_def Let_def len) (simp add: roll)
qed

lemma lastn_length: "k \<le> length xs \<Longrightarrow> length (lastn k xs) = k"
  by (simp add: lastn_def)

lemma lastn_append_step:
  assumes "length buf = cap" and "length block \<le> cap"
  shows "drop (length block) buf @ block = lastn cap (buf @ block)"
  using assms by (simp add: lastn_def)

lemma lastn_lastn_append: "lastn k (lastn k xs @ ys) = lastn k (xs @ ys)"
  by (simp add: lastn_def) (metis diff_diff_left add.commute diff_add_inverse2 le_add_diff_inverse2 diff_le_self)

lemma push_all_in_range:
  assumes "length buf = cap"
    and "\<forall>b \<in> set blocks. 0 < length b \<and> length b \<le> cap"
  shows "push_all buf blocks = Inr (lastn cap (buf @ concat blocks))"
  using assms
proof (induction blocks arbitrary: buf)
  case Nil
  then show ?case by (simp add: lastn_def)
next
  case (Cons b bs)
  from Cons.prems have b: "0 < length b" "length b \<le> length buf" by simp_all
  have step: "push buf b = Inr (lastn cap (buf @ b))"
    using push_in_range [OF b] lastn_append_step [of buf cap b] Cons.prems by simp
  have len: "length (lastn cap (buf @ b)) = cap"
    using Cons.prems by (simp add: lastn_length)
  have rest: "\<forall>x \<in> set bs. 0 < length x \<and> length x \<le> cap"
    using Cons.prems by simp
  have "push_all buf (b # bs) = push_all (lastn cap (buf @ b)) bs"
    by (simp add: step)
  also have "\<dots> = Inr (lastn cap (lastn cap (buf @ b) @ concat bs))"
    by (rule Cons.IH [OF len rest])
  also have "\<dots> = Inr (lastn cap (buf @ b @ concat bs))"
    using lastn_lastn_append [of cap "buf @ b" "concat bs"] by simp
  finally show ?case by simp
qed

lemma push_oversize:
  assumes "length buf < length block" and "2 \<le> length block"
  shows "push buf block = Inl ValueError"
  using assms by (auto simp: push_def np_roll_left_def assign_tail_def Let_def)

lemma push_empty_block:
  assumes "buf \<noteq> []"
  shows "push buf [] = Inl ValueError"
  using assms by (auto simp: push_def np_roll_left_def assign_tail_def Let_def)

subsection \<open>The rolling buffer as a sliding window\<close>

text \<open>
  Where every block fits: starting from a buffer of \<open>cap\<close> zeros, after any sequence of
  blocks of at least one and at most \<open>cap\<close> samples the buffer still has \<open>cap\<close> samples,
  the last \<open>cap\<close> of the zeros followed by everything pushed.
\<close>

lemma push_all_sliding_window:
  assumes "\<forall>b \<in> set blocks. 0 < length b \<and> length b \<le> cap"
  shows "push_all (replicate cap 0) blocks
           = Inr (lastn cap (replicate cap 0 @ concat blocks))
         \<and> length (lastn cap (replicate cap 0 @ concat blocks)) = cap"
proof -
  have "push_all (replicate cap 0) blocks = Inr (lastn cap (replicate cap 0 @ concat blocks))"
    by (rule push_all_in_range [OF _ assms]) simp
  moreover have "length (lastn cap (replicate cap 0 @ concat blocks)) = cap"
    by (rule lastn_length) simp
  ultimately show ?thesis by simp
qed

text \<open>
  C1. The buffer should keep its length and hold the last samples pushed after every
  sequence of blocks. Started with \<^verbatim>\<open>--window 2 --hop 3\<close>, the program builds a buffer of
  32000 samples and asks the stream for blocks of 48000. The first block that the loop
  takes from the queue makes the buffer update raise \<^verbatim>\<open>ValueError\<close>: the run ends there,
  with no snapshot. It is the defect of C2, met by a run of the program.
\<close>

theorem oversize_blocks_end_the_run:
  "startup \<lparr>db_ok = True, model_exists = True, model_loads = True,
            zeros_refused = (\<lambda>_. None), stream_opens = (\<lambda>_. True),
            extract_features = (\<lambda>buf :: int list. Inr buf), predict_proba = (\<lambda>feat. Inr 0)\<rparr>
           \<lparr>args_location = ''kitchen'', args_threshold = 4 / 5,
            args_window = Fin 2, args_hop = Fin 3\<rparr>
     = Inr \<lparr>audio_buffer = replicate 32000 0, q_in = [], events = []\<rparr>
   \<and> sample_count (Fin 3) 16000 = Inr 48000
   \<and> listen \<lparr>db_ok = True, model_exists = True, model_loads = True,
            zeros_refused = (\<lambda>_. None), stream_opens = (\<lambda>_. True),
            extract_features = (\<lambda>buf :: int list. Inr buf), predict_proba = (\<lambda>feat. Inr 0)\<rparr>
           \<lparr>args_location = ''kitchen'', args_threshold = 4 / 5,
            args_window = Fin 2, args_hop = Fin 3\<rparr>
           \<lparr>audio_buffer = replicate 32000 0, q_in = [], events = []\<rparr>
           [Callback (replicate 48000 1), Iteration]
     = Crashed ValueError []"
  by (simp add: startup_Inr_iff sample_count_2s sample_count_3s audio_callback_def
      loop_iteration_def detect_def push_oversize)

text \<open>
  C2. A block longer than the buffer should leave the block's final samples in the buffer
  (here \<open>[3, 4, 5]\<close>). The update of lines 80 and 81 raises \<^verbatim>\<open>ValueError\<close> instead: the
  slice \<^verbatim>\<open>audio_buffer[-5:]\<close> has three elements and a block of five cannot be stored in it.
\<close>

theorem oversize_block_raises:
  "push [0, 0, 0 :: int] [1, 2, 3, 4, 5] = Inl ValueError"
  by (simp add: push_def np_roll_left_def assign_tail_def Let_def)

subsection \<open>The initial state\<close>

text \<open>
  C8. Let \<open>n\<close> be \<^verbatim>\<open>int(window_seconds * sr)\<close> with \<open>sr = 16000\<close>, the product rounded
  as a double. Whenever start-up succeeds, and before any block has been consumed, the
  buffer holds \<open>n\<close> samples, every one of them zero, and the queue and the event log are
  empty. And start-up does succeed, with exactly that state, as soon as the database, the
  model, the two conversions, the allocation of the buffer and the input stream all do.
\<close>

theorem initial_buffer_silence:
  "(startup w a = Inr st \<longrightarrow>
      (\<exists>n. sample_count (args_window a) 16000 = Inr n \<and> 0 \<le> n
           \<and> audio_buffer st = replicate (nat n) 0
           \<and> length (audio_buffer st) = nat n
           \<and> (\<forall>x \<in> set (audio_buffer st). x = 0)
           \<and> q_in st = [] \<and> events st = []))
   \<and> (db_ok w \<and> model_exists w \<and> model_loads w
        \<and> sample_count (args_hop a) 16000 = Inr b
        \<and> sample_count (args_window a) 16000 = Inr n
        \<and> 0 \<le> n \<and> zeros_refused w n = None \<and> stream_opens w b
       \<longrightarrow> startup w a = Inr \<lparr>audio_buffer = replicate (nat n) 0, q_in = [], events = []\<rparr>)"
proof (intro conjI impI)
  assume "startup w a = Inr st"
  then obtain n where n: "sample_count (args_window a) 16000 = Inr n" "0 \<le> n"
    and st: "st = \<lparr>audio_buffer = replicate (nat n) 0, q_in = [], events = []\<rparr>"
    unfolding startup_Inr_iff by blast
  from st have "audio_buffer st = replicate (nat n) 0" "q_in st = []" "events st = []"
    by simp_all
  moreover from this have "length (audio_buffer st) = nat n" "\<forall>x \<in> set (audio_buffer st). x = 0"
    by simp_all
  ultimately show "\<exists>n. sample_count (args_window a) 16000 = Inr n \<and> 0 \<le> n
           \<and> audio_buffer st = replicate (nat n) 0
           \<and> length (audio_buffer st) = nat n
           \<and> (\<forall>x \<in> set (audio_buffer st). x = 0)
           \<and> q_in st = [] \<and> events st = []"
    using n by blast
next
  assume "db_ok w \<and> model_exists w \<and> model_loads w
        \<and> sample_count (args_hop a) 16000 = Inr b
        \<and> sample_count (args_window a) 16000 = Inr n
        \<and> 0 \<le> n \<and> zeros_refused w n = None \<and> stream_opens w b"
  then show "startup w a = Inr \<lparr>audio_buffer = replicate (nat n) 0, q_in = [], events = []\<rparr>"
    unfolding startup_Inr_iff by blast
qed

text \<open>
  A window of 0.3 seconds (the double nearest to 0.3, which lies below it) starts with
  4800 zero samples, the product being rounded to 4800.0 before it is truncated; the default
  window of two seconds starts with 32000.
\<close>

theorem initial_buffer_silence_witness:
  "sample_count (Fin (5404319552844595 / 18014398509481984)) 16000 = Inr 4800
   \<and> startup \<lparr>db_ok = True, model_exists = True, model_loads = True,
              zeros_refused = (\<lambda>_. None), stream_opens = (\<lambda>_. True),
              extract_features = (\<lambda>buf :: int list. Inr buf), predict_proba = (\<lambda>feat. Inr 0)\<rparr>
             \<lparr>args_location = ''kitchen'', args_threshold = 4 / 5,
              args_window = Fin (5404319552844595 / 18014398509481984), args_hop = Fin 1\<rparr>
       = Inr \<lparr>audio_buffer = replicate 4800 0, q_in = [], events = []\<rparr>
   \<and> startup \<lparr>db_ok = True, model_exists = True, model_loads = True,
              zeros_refused = (\<lambda>_. None), stream_opens = (\<lambda>_. True),
              extract_features = (\<lambda>buf :: int list. Inr buf), predict_proba = (\<lambda>feat. Inr 0)\<rparr>
             \<lparr>args_location = ''kitchen'', args_threshold = 4 / 5,
              args_window = Fin 2, args_hop = Fin 1\<rparr>
       = Inr \<lparr>audio_buffer = replicate 32000 0, q_in = [], events = []\<rparr>"
proof -
  let ?w = "\<lparr>db_ok = True, model_exists = True, model_loads = True,
              zeros_refused = (\<lambda>_. None), stream_opens = (\<lambda>_. True),
              extract_features = (\<lambda>buf :: int list. Inr buf),
              predict_proba = (\<lambda>feat :: int list. Inr 0)\<rparr>"
  let ?a = "\<lparr>args_location = ''kitchen'', args_threshold = 4 / 5,
              args_window = Fin (5404319552844595 / 18014398509481984), args_hop = Fin 1\<rparr>"
  let ?a2 = "\<lparr>args_location = ''kitchen'', args_threshold = 4 / 5,
              args_window = Fin 2, args_hop = Fin 1\<rparr>"
  have 1: "startup ?w ?a = Inr \<lparr>audio_buffer = replicate 4800 (0 :: int), q_in = [], events = []\<rparr>"
    using initial_buffer_silence [of ?w ?a _ 16000 4800]
    by (simp add: sample_count_1s sample_count_03s)
  have 2: "startup ?w ?a2 = Inr \<lparr>audio_buffer = replicate 32000 (0 :: int), q_in = [], events = []\<rparr>"
    using initial_buffer_silence [of ?w ?a2 _ 16000 32000]
    by (simp add: sample_count_1s sample_count_2s)
  from 1 2 sample_count_03s show ?thesis by simp
qed

lemma score_Inl_iff:
  "score w buf = Inl e \<longleftrightarrow>
     extract_features w buf = Inl e
     \<or> (\<exists>feat. extract_features w buf = Inr feat \<and> predict_proba w feat = Inl e)"
  by (cases "extract_features w buf") (simp_all add: score_def)

lemma spec_clamp_fixed: "spec_clamp p = p \<longleftrightarrow> 0 \<le> p \<and> p \<le> 1"
  by (auto simp: spec_clamp_def max_def min_def)

lemma detect_success:
  assumes "push (audio_buffer st) block = Inr buf" and "score w buf = Inr prob"
  shows "detect w a st block =
           Inr (st\<lparr>audio_buffer := buf,
                   events := events st @
                     (if args_threshold a \<le> prob
                      then [\<lparr>ev_location = args_location a, ev_probability = prob\<rparr>] else [])\<rparr>)"
  using assms by (simp add: detect_def)

lemma detect_Inr_cases:
  assumes "detect w a st block = Inr st'"
  obtains buf prob where "push (audio_buffer st) block = Inr buf" and "score w buf = Inr prob"
proof (cases "push (audio_buffer st) block")
  case (Inl e)
  with assms show ?thesis by (simp add: detect_def)
next
  case (Inr buf)
  show ?thesis
  proof (cases "score w buf")
    case (Inl e)
    with Inr assms show ?thesis by (simp add: detect_def)
  next
    case (Inr prob)
    with \<open>push (audio_buffer st) block = Inr buf\<close> that show ?thesis by blast
  qed
qed

subsection \<open>The decision: what is compared and what is recorded\<close>

text \<open>
  C3 (as amended). The pipeline has no clamping step. Whenever a block is processed without
  an exception, the value compared with the threshold and the value written into the
  event are one and the same: the probability the classifier returned for the window,
  unchanged. It agrees with the clamped value exactly when it lies in the unit interval.
\<close>

theorem detect_uses_raw_probability:
  assumes "detect w a st block = Inr st'"
  shows "\<exists>buf prob. push (audio_buffer st) block = Inr buf \<and> score w buf = Inr prob
           \<and> audio_buffer st' = buf
           \<and> events st' = events st @
                (if args_threshold a \<le> prob
                 then [\<lparr>ev_location = args_location a, ev_probability = prob\<rparr>] else [])
           \<and> (spec_clamp prob = prob \<longleftrightarrow> 0 \<le> prob \<and> prob \<le> 1)"
proof -
  from assms obtain buf prob
    where p: "push (audio_buffer st) block = Inr buf" and s: "score w buf = Inr prob"
    by (rule detect_Inr_cases)
  from detect_success [OF p s, of a] assms
  have "st' = st\<lparr>audio_buffer := buf,
                   events := events st @
                     (if args_threshold a \<le> prob
                      then [\<lparr>ev_location = args_location a, ev_probability = prob\<rparr>] else [])\<rparr>"
    by simp
  then have "audio_buffer st' = buf"
    and "events st' = events st @
                (if args_threshold a \<le> prob
                 then [\<lparr>ev_location = args_location a, ev_probability = prob\<rparr>] else [])"
    by simp_all
  with p s spec_clamp_fixed [of prob] show ?thesis by blast
qed

text \<open>A classifier answering 0.9 against a threshold of 0.8: the event carries 0.9.\<close>

theorem detect_uses_raw_probability_witness:
  "detect \<lparr>db_ok = True, model_exists = True, model_loads = True,
           zeros_refused = (\<lambda>_. None), stream_opens = (\<lambda>_. True),
           extract_features = (\<lambda>buf :: int list. Inr buf), predict_proba = (\<lambda>feat. Inr (9 / 10))\<rparr>
          \<lparr>args_location = ''kitchen'', args_threshold = 4 / 5, args_window = Fin 2, args_hop = Fin 1\<rparr>
          \<lparr>audio_buffer = [0, 0], q_in = [], events = []\<rparr> [1]
     = Inr \<lparr>audio_buffer = [0, 1], q_in = [],
            events = [\<lparr>ev_location = ''kitchen'', ev_probability = 9 / 10\<rparr>]\<rparr>
   \<and> (\<exists>buf. push [0, 0 :: int] [1] = Inr buf)
   \<and> spec_clamp (9 / 10) = 9 / 10"
proof -
  have d: "detect \<lparr>db_ok = True, model_exists = True, model_loads = True,
           zeros_refused = (\<lambda>_. None), stream_opens = (\<lambda>_. True),
           extract_features = (\<lambda>buf :: int list. Inr buf), predict_proba = (\<lambda>feat. Inr (9 / 10))\<rparr>
          \<lparr>args_location = ''kitchen'', args_threshold = 4 / 5, args_window = Fin 2, args_hop = Fin 1\<rparr>
          \<lparr>audio_buffer = [0, 0], q_in = [], events = []\<rparr> [1]
     = Inr \<lparr>audio_buffer = [0, 1], q_in = [],
            events = [\<lparr>ev_location = ''kitchen'', ev_probability = 9 / 10\<rparr>]\<rparr>"
    by (simp add: detect_def score_def push_def np_roll_left_def assign_tail_def Let_def)
  from detect_uses_raw_probability [OF d]
  obtain buf prob where p: "push [0, 0 :: int] [1] = Inr buf"
    and s: "Inr (9 / 10) = (Inr prob :: error + real)"
    and c: "spec_clamp prob = prob \<longleftrightarrow> 0 \<le> prob \<and> prob \<le> 1"
    by (auto simp: score_def)
  from s have "prob = 9 / 10" by simp
  with c have "spec_clamp (9 / 10) = 9 / 10" by simp
  with d p show ?thesis by blast
qed

text \<open>
  C3 as stated says that no score outside the unit interval is compared or persisted
  unclamped. A classifier answering 1.5 against a threshold of 0.8 gets an event whose
  probability is 1.5, where the clamped value is 1.
\<close>

theorem clamping_counterexample:
  "listen \<lparr>db_ok = True, model_exists = True, model_loads = True,
           zeros_refused = (\<lambda>_. None), stream_opens = (\<lambda>_. True),
           extract_features = (\<lambda>buf :: int list. Inr buf), predict_proba = (\<lambda>feat. Inr (3 / 2))\<rparr>
          \<lparr>args_location = ''kitchen'', args_threshold = 4 / 5, args_window = Fin 2, args_hop = Fin 1\<rparr>
          \<lparr>audio_buffer = [0, 0], q_in = [], events = []\<rparr> [Callback [1], Iteration]
     = Listening \<lparr>audio_buffer = [0, 1], q_in = [],
            events = [\<lparr>ev_location = ''kitchen'', ev_probability = 3 / 2\<rparr>]\<rparr>
   \<and> spec_clamp (3 / 2) = 1
   \<and> spec_clamp (3 / 2) \<noteq> 3 / 2"
  by (simp add: loop_iteration_def audio_callback_def detect_def score_def push_def
      np_roll_left_def assign_tail_def spec_clamp_def Let_def)




subsection \<open>Exceptions raised while a window is processed\<close>

text \<open>
  C5 (as amended). The loop catches \<^verbatim>\<open>queue.Empty\<close> and nothing else. If the feature
  extractor or the classifier raises on the window of the block at the head of the queue,
  no event is emitted for that window, and the exception leaves the consumer loop: the
  run ends with that error whatever the rest of the schedule holds, so no later block is
  processed. The events logged before stay as they are.
\<close>

theorem window_failure_is_fatal:
  assumes "q_in st = block # rest"
    and "push (audio_buffer st) block = Inr buf"
    and "extract_features w buf = Inl e
         \<or> (\<exists>feat. extract_features w buf = Inr feat \<and> predict_proba w feat = Inl e)"
  shows "loop_iteration w a st = Inl e \<and> listen w a st (Iteration # sched) = Crashed e (events st)"
proof -
  from assms(3) have "score w buf = Inl e" by (simp add: score_Inl_iff)
  with assms(1,2) have "loop_iteration w a st = Inl e"
    by (simp add: loop_iteration_def detect_def)
  then show ?thesis by simp
qed

text \<open>
  An extractor that fails on a window ending in 9, with the blocks \<open>[9]\<close> and \<open>[5]\<close> queued:
  the first pass ends the run and the block \<open>[5]\<close> is never looked at.
\<close>

theorem window_failure_is_fatal_witness:
  "q_in \<lparr>audio_buffer = [0, 0 :: int], q_in = [[9], [5]], events = []\<rparr> = [9] # [[5]]
   \<and> push [0, 0 :: int] [9] = Inr [0, 9]
   \<and> listen \<lparr>db_ok = True, model_exists = True, model_loads = True,
           zeros_refused = (\<lambda>_. None), stream_opens = (\<lambda>_. True),
           extract_features = (\<lambda>buf :: int list. if last buf = 9 then Inl ExtractionError else Inr buf),
           predict_proba = (\<lambda>feat. Inr (9 / 10))\<rparr>
          \<lparr>args_location = ''kitchen'', args_threshold = 4 / 5, args_window = Fin 2, args_hop = Fin 1\<rparr>
          \<lparr>audio_buffer = [0, 0], q_in = [[9], [5]], events = []\<rparr> (Iteration # [Iteration])
     = Crashed ExtractionError []"
proof -
  let ?w = "\<lparr>db_ok = True, model_exists = True, model_loads = True,
           zeros_refused = (\<lambda>_. None), stream_opens = (\<lambda>_. True),
           extract_features = (\<lambda>buf :: int list. if last buf = 9 then Inl ExtractionError else Inr buf),
           predict_proba = (\<lambda>feat :: int list. Inr (9 / 10))\<rparr>"
  let ?st = "\<lparr>audio_buffer = [0, 0 :: int], q_in = [[9], [5]], events = []\<rparr>"
  have q: "q_in ?st = [9] # [[5]]" by simp
  have p: "push (audio_buffer ?st) [9] = Inr [0, 9]"
    by (simp add: push_def np_roll_left_def assign_tail_def Let_def)
  have x: "extract_features ?w [0, 9] = Inl ExtractionError
           \<or> (\<exists>feat. extract_features ?w [0, 9] = Inr feat \<and> predict_proba ?w feat = Inl ExtractionError)"
    by simp
  from window_failure_is_fatal [OF q p x] q p show ?thesis by simp
qed

text \<open>
  C5 as stated has the loop skip the failed window and go on. Here the block \<open>[9]\<close> makes
  the extractor raise and the block \<open>[5]\<close>, delivered afterwards, would score 0.9: the run
  has crashed by then, and the log stays empty. On its own, the block \<open>[5]\<close> is detected.
\<close>

theorem failure_containment_counterexample:
  "listen \<lparr>db_ok = True, model_exists = True, model_loads = True,
           zeros_refused = (\<lambda>_. None), stream_opens = (\<lambda>_. True),
           extract_features = (\<lambda>buf :: int list. if last buf = 9 then Inl ExtractionError else Inr buf),
           predict_proba = (\<lambda>feat. Inr (9 / 10))\<rparr>
          \<lparr>args_location = ''kitchen'', args_threshold = 4 / 5, args_window = Fin 2, args_hop = Fin 1\<rparr>
          \<lparr>audio_buffer = [0, 0], q_in = [], events = []\<rparr>
          [Callback [9], Iteration, Callback [5], Iteration]
     = Crashed ExtractionError []
   \<and> listen \<lparr>db_ok = True, model_exists = True, model_loads = True,
           zeros_refused = (\<lambda>_. None), stream_opens = (\<lambda>_. True),
           extract_features = (\<lambda>buf :: int list. if last buf = 9 then Inl ExtractionError else Inr buf),
           predict_proba = (\<lambda>feat. Inr (9 / 10))\<rparr>
          \<lparr>args_location = ''kitchen'', args_threshold = 4 / 5, args_window = Fin 2, args_hop = Fin 1\<rparr>
          \<lparr>audio_buffer = [0, 0], q_in = [], events = []\<rparr>
          [Callback [5], Iteration]
     = Listening \<lparr>audio_buffer = [0, 5], q_in = [],
          events = [\<lparr>ev_location = ''kitchen'', ev_probability = 9 / 10\<rparr>]\<rparr>"
  by (simp add: loop_iteration_def audio_callback_def detect_def score_def push_def
      np_roll_left_def assign_tail_def Let_def)

subsection \<open>Start-up\<close>

text \<open>
  C6 (as amended). Start-up never looks at the threshold and never compares the window
  with the hop: its outcome is the same for every threshold, and a hop that start-up
  accepts together with some window is accepted, with the same initial state, together
  with every window that start-up accepts at all. A hop greater than the window, or a
  threshold outside the unit interval, is therefore no start-up error.
\<close>

theorem startup_checks:
  "startup w (a\<lparr>args_threshold := t\<rparr>) = startup w a
   \<and> (startup w a = Inr st \<and> startup w a' = Inr st'
       \<longrightarrow> startup w (a\<lparr>args_hop := args_hop a'\<rparr>) = Inr st)"
proof (intro conjI impI)
  show "startup w (a\<lparr>args_threshold := t\<rparr>) = startup w a"
    by (simp add: startup_def cong: sum.case_cong)
next
  assume "startup w a = Inr st \<and> startup w a' = Inr st'"
  then show "startup w (a\<lparr>args_hop := args_hop a'\<rparr>) = Inr st"
    unfolding startup_Inr_iff by auto
qed

text \<open>
  Start-up accepts a window of 2 seconds with a hop of 1 second, and a window of 4 seconds
  with a hop of 3 seconds; so it accepts the window of 2 seconds with the hop of 3 seconds,
  and with a threshold of 1.5 as well.
\<close>

theorem startup_checks_witness:
  "startup \<lparr>db_ok = True, model_exists = True, model_loads = True,
            zeros_refused = (\<lambda>_. None), stream_opens = (\<lambda>_. True),
            extract_features = (\<lambda>buf :: int list. Inr buf), predict_proba = (\<lambda>feat. Inr 0)\<rparr>
           \<lparr>args_location = ''kitchen'', args_threshold = 4 / 5,
            args_window = Fin 2, args_hop = Fin 1\<rparr>
     = Inr \<lparr>audio_buffer = replicate 32000 0, q_in = [], events = []\<rparr>
   \<and> startup \<lparr>db_ok = True, model_exists = True, model_loads = True,
            zeros_refused = (\<lambda>_. None), stream_opens = (\<lambda>_. True),
            extract_features = (\<lambda>buf :: int list. Inr buf), predict_proba = (\<lambda>feat. Inr 0)\<rparr>
           \<lparr>args_location = ''kitchen'', args_threshold = 4 / 5,
            args_window = Fin 4, args_hop = Fin 3\<rparr>
     = Inr \<lparr>audio_buffer = replicate 64000 0, q_in = [], events = []\<rparr>
   \<and> startup \<lparr>db_ok = True, model_exists = True, model_loads = True,
            zeros_refused = (\<lambda>_. None), stream_opens = (\<lambda>_. True),
            extract_features = (\<lambda>buf :: int list. Inr buf), predict_proba = (\<lambda>feat. Inr 0)\<rparr>
           \<lparr>args_location = ''kitchen'', args_threshold = 3 / 2,
            args_window = Fin 2, args_hop = Fin 3\<rparr>
     = Inr \<lparr>audio_buffer = replicate 32000 0, q_in = [], events = []\<rparr>"
proof -
  let ?w = "\<lparr>db_ok = True, model_exists = True, model_loads = True,
              zeros_refused = (\<lambda>_. None), stream_opens = (\<lambda>_. True),
              extract_features = (\<lambda>buf :: int list. Inr buf),
              predict_proba = (\<lambda>feat :: int list. Inr 0)\<rparr>"
  let ?a = "\<lparr>args_location = ''kitchen'', args_threshold = 4 / 5,
            args_window = Fin 2, args_hop = Fin 1\<rparr>"
  let ?a' = "\<lparr>args_location = ''kitchen'', args_threshold = 4 / 5,
            args_window = Fin 4, args_hop = Fin 3\<rparr>"
  let ?st = "\<lparr>audio_buffer = replicate 32000 (0 :: int), q_in = [], events = []\<rparr>"
  let ?st' = "\<lparr>audio_buffer = replicate 64000 (0 :: int), q_in = [], events = []\<rparr>"
  have 1: "startup ?w ?a = Inr ?st"
    by (simp add: startup_Inr_iff sample_count_1s sample_count_2s)
  have 2: "startup ?w ?a' = Inr ?st'"
    by (simp add: startup_Inr_iff sample_count_3s sample_count_4s)
  from startup_checks [where w = ?w and a = ?a and st = ?st and a' = ?a' and st' = ?st'] 1 2
  have "startup ?w (?a\<lparr>args_hop := args_hop ?a'\<rparr>) = Inr ?st"
    by blast
  moreover from startup_checks [where w = ?w and a = "?a\<lparr>args_hop := args_hop ?a'\<rparr>"
      and t = "3 / 2"]
  have "startup ?w (?a\<lparr>args_hop := args_hop ?a', args_threshold := 3 / 2\<rparr>)
          = startup ?w (?a\<lparr>args_hop := args_hop ?a'\<rparr>)"
    by blast
  ultimately have "startup ?w (?a\<lparr>args_hop := args_hop ?a', args_threshold := 3 / 2\<rparr>) = Inr ?st"
    by simp
  then have 3: "startup ?w \<lparr>args_location = ''kitchen'', args_threshold = 3 / 2,
            args_window = Fin 2, args_hop = Fin 3\<rparr> = Inr ?st"
    by simp
  from 1 2 3 show ?thesis by blast
qed

text \<open>
  C6 as stated makes a hop greater than the window, or a threshold outside the unit
  interval, a fatal start-up error. With a window of 2 seconds, a hop of 3 seconds and a
  threshold of 1.5, start-up succeeds.
\<close>

theorem startup_validation_counterexample:
  "startup \<lparr>db_ok = True, model_exists = True, model_loads = True,
            zeros_refused = (\<lambda>_. None), stream_opens = (\<lambda>_. True),
            extract_features = (\<lambda>buf :: int list. Inr buf), predict_proba = (\<lambda>feat. Inr 0)\<rparr>
           \<lparr>args_location = ''kitchen'', args_threshold = 3 / 2,
            args_window = Fin 2, args_hop = Fin 3\<rparr>
     = Inr \<lparr>audio_buffer = replicate 32000 0, q_in = [], events = []\<rparr>
   \<and> args_window \<lparr>args_location = ''kitchen'', args_threshold = 3 / 2,
            args_window = Fin 2, args_hop = Fin 3\<rparr> = Fin 2
   \<and> args_hop \<lparr>args_location = ''kitchen'', args_threshold = 3 / 2,
            args_window = Fin 2, args_hop = Fin 3\<rparr> = Fin 3
   \<and> \<not> (3 :: real) \<le> 2
   \<and> \<not> (args_threshold \<lparr>args_location = ''kitchen'', args_threshold = 3 / 2,
            args_window = Fin 2, args_hop = Fin 3\<rparr> \<le> 1)"
  by (simp add: startup_Inr_iff sample_count_2s sample_count_3s)

subsection \<open>The queue between the callback and the loop\<close>

text \<open>
  C7 (as amended). The queue has no capacity: a delivery by the audio callback appends the
  block and neither evicts nor drops anything, and it never fails. After any number of
  deliveries with no pass of the consumer loop in between, the queue holds what it held
  before followed by every delivered block, in order of arrival.
\<close>

theorem queue_keeps_every_block:
  "listen w a st (map Callback blocks) = Listening (st\<lparr>q_in := q_in st @ blocks\<rparr>)"
  by (induction blocks arbitrary: st) (simp_all add: audio_callback_def)

text \<open>
  C7 as stated bounds the queue by a capacity \<open>N\<close> and evicts the oldest block. Three
  deliveries into the empty queue leave three blocks, the oldest still at the head: for
  \<open>N = 2\<close> the claim asks for the two newest only.
\<close>

theorem bounded_queue_counterexample:
  "listen \<lparr>db_ok = True, model_exists = True, model_loads = True,
           zeros_refused = (\<lambda>_. None), stream_opens = (\<lambda>_. True),
           extract_features = (\<lambda>buf :: int list. Inr buf), predict_proba = (\<lambda>feat. Inr 0)\<rparr>
          \<lparr>args_location = ''kitchen'', args_threshold = 4 / 5, args_window = Fin 2, args_hop = Fin 1\<rparr>
          \<lparr>audio_buffer = [0, 0], q_in = [], events = []\<rparr>
          [Callback [1], Callback [2], Callback [3]]
     = Listening \<lparr>audio_buffer = [0, 0], q_in = [[1], [2], [3]], events = []\<rparr>
   \<and> \<not> length [[1], [2], [3 :: int]] \<le> 2"
  by (simp add: audio_callback_def)

subsection \<open>What \<^verbatim>\<open>frame_audio\<close> returns\<close>

lemma py_slice_in_range:
  assumes "0 \<le> i" and "i \<le> j" and "j \<le> int (length xs)"
  shows "py_slice xs i j = take (nat (j - i)) (drop (nat i) xs)"
  using assms by (simp add: py_slice_def Let_def min_def)

lemma frame_loop_short:
  assumes "int (length audio) < win" and "0 \<le> start"
  shows "frame_loop audio sr win hop stop start = []"
  using assms by (subst frame_loop.simps) (simp add: Let_def)

lemma frame_loop_nth:
  assumes "0 < hop" and "0 < win" and "0 \<le> start"
    and "i < length (frame_loop audio sr win hop stop start)"
  shows "frame_loop audio sr win hop stop start ! i
           = (take (nat win) (drop (nat start + i * nat hop) audio), sr)
         \<and> nat start + i * nat hop + nat win \<le> length audio"
  using assms(3,4)
proof (induction i arbitrary: start)
  case 0
  have ne: "frame_loop audio sr win hop stop start \<noteq> []" using 0 by auto
  then have c: "start < stop" "start + win \<le> int (length audio)"
    by (subst (asm) frame_loop.simps, simp add: Let_def split: if_splits)+
  then have eq: "frame_loop audio sr win hop stop start
      = (py_slice audio start (start + win), sr) # frame_loop audio sr win hop stop (start + hop)"
    using assms(1) by (subst frame_loop.simps) (simp add: Let_def)
  have "py_slice audio start (start + win) = take (nat win) (drop (nat start) audio)"
    using py_slice_in_range [of start "start + win" audio] 0 c assms(2) by simp
  moreover have "nat start + nat win \<le> length audio"
    using c 0 assms(2) by linarith
  ultimately show ?case by (simp add: eq)
next
  case (Suc i)
  have ne: "frame_loop audio sr win hop stop start \<noteq> []" using Suc.prems by auto
  then have c: "start < stop" "start + win \<le> int (length audio)"
    by (subst (asm) frame_loop.simps, simp add: Let_def split: if_splits)+
  then have eq: "frame_loop audio sr win hop stop start
      = (py_slice audio start (start + win), sr) # frame_loop audio sr win hop stop (start + hop)"
    using assms(1) by (subst frame_loop.simps) (simp add: Let_def)
  have s: "0 \<le> start + hop" using Suc.prems assms(1) by simp
  have l: "i < length (frame_loop audio sr win hop stop (start + hop))"
    using Suc.prems(2) by (simp add: eq)
  have n: "nat (start + hop) + i * nat hop = nat start + Suc i * nat hop"
    using Suc.prems(1) assms(1) by (simp add: nat_add_distrib)
  from Suc.IH [OF s l] show ?case by (simp add: eq n)
qed

lemma frame_loop_length:
  assumes "0 < hop" and "0 < win" and "0 \<le> start"
    and "stop \<le> int (length audio) - win + 1"
  shows "length (frame_loop audio sr win hop stop start) = nat ((stop - start + hop - 1) div hop)"
  using assms
proof (induction audio sr win hop stop start rule: frame_loop.induct)
  case (1 audio sr win hop stop start)
  show ?case
  proof (cases "stop \<le> start")
    case True
    then have "frame_loop audio sr win hop stop start = []"
      by (subst frame_loop.simps) simp
    moreover have "(stop - start + hop - 1) div hop \<le> 0"
    proof -
      have "stop - start + hop - 1 \<le> hop - 1" using True by simp
      then have "(stop - start + hop - 1) div hop \<le> (hop - 1) div hop"
        using "1.prems"(1) by (rule zdiv_mono1)
      moreover have "(hop - 1) div hop = 0"
        using "1.prems"(1) by simp
      ultimately show ?thesis by simp
    qed
    ultimately show ?thesis by simp
  next
    case False
    then have lt: "start < stop" by simp
    then have inb: "\<not> start + win > int (length audio)" using "1.prems"(4) by simp
    have eq: "frame_loop audio sr win hop stop start
      = (py_slice audio start (start + win), sr) # frame_loop audio sr win hop stop (start + hop)"
      using lt inb "1.prems"(1) by (subst frame_loop.simps) (simp add: Let_def)
    have ih: "length (frame_loop audio sr win hop stop (start + hop))
              = nat ((stop - (start + hop) + hop - 1) div hop)"
      using "1.IH" [of "start + win"] lt inb "1.prems" by simp
    have nn: "0 \<le> (stop - start - 1) div hop"
      using lt "1.prems"(1) by (simp add: pos_imp_zdiv_nonneg_iff)
    have "(stop - start + hop - 1) div hop = (stop - start - 1) div hop + 1"
    proof -
      have "stop - start + hop - 1 = (stop - start - 1) + 1 * hop" by simp
      then show ?thesis using "1.prems"(1) by (metis div_add_self2 less_irrefl mult_1 add.commute)
    qed
    with ih nn show ?thesis by (simp add: eq nat_add_distrib)
  qed
qed

text \<open>
  C10. Let \<open>win = int(window_seconds * sr)\<close> and \<open>hop = int(hop_seconds * sr)\<close>, each
  product rounded as a double, both be positive. Then \<^verbatim>\<open>frame_audio\<close> returns normally,
  and the frame at position \<open>i\<close> of its result is paired with \<open>sr\<close>, has exactly \<open>win\<close>
  samples, starts at sample \<open>i * hop\<close> (one hop after the frame before it) and ends inside
  the input. An input shorter than one window gives the empty list; otherwise there are
  \<open>(len(audio) - win) div hop + 1\<close> frames.
\<close>

theorem frame_audio_frames:
  assumes "sample_count window_seconds sr = Inr win"
    and "sample_count hop_seconds sr = Inr hop"
    and "0 < win" and "0 < hop"
  shows "\<exists>frames. frame_audio audio sr window_seconds hop_seconds = Inr frames
           \<and> (\<forall>i < length frames.
                 frames ! i = (take (nat win) (drop (i * nat hop) audio), sr)
                 \<and> length (fst (frames ! i)) = nat win
                 \<and> i * nat hop + nat win \<le> length audio)
           \<and> (int (length audio) < win \<longrightarrow> frames = [])
           \<and> (win \<le> int (length audio)
                \<longrightarrow> int (length frames) = (int (length audio) - win) div hop + 1)"
proof -
  let ?stop = "max 1 (int (length audio) - win + 1)"
  let ?frames = "frame_loop audio sr win hop ?stop 0"
  have run: "frame_audio audio sr window_seconds hop_seconds = Inr ?frames"
    using assms by (simp add: frame_audio_def)
  have nth: "?frames ! i = (take (nat win) (drop (i * nat hop) audio), sr)
             \<and> length (fst (?frames ! i)) = nat win
             \<and> i * nat hop + nat win \<le> length audio" if "i < length ?frames" for i
  proof -
    from frame_loop_nth [OF assms(4) assms(3) _ that]
    have a: "?frames ! i = (take (nat win) (drop (i * nat hop) audio), sr)"
      and b: "i * nat hop + nat win \<le> length audio"
      by simp_all
    from b have "length (take (nat win) (drop (i * nat hop) audio)) = nat win"
      by simp
    with a b show ?thesis by simp
  qed
  have short: "?frames = []" if "int (length audio) < win"
    using that by (simp add: frame_loop_short)
  have count: "int (length ?frames) = (int (length audio) - win) div hop + 1"
    if "win \<le> int (length audio)"
  proof -
    define d where "d = int (length audio) - win"
    from that have d0: "0 \<le> d" by (simp add: d_def)
    then have stop: "?stop = d + 1" by (simp add: d_def)
    have "length ?frames = nat ((?stop - 0 + hop - 1) div hop)"
      by (rule frame_loop_length [OF assms(4) assms(3)]) (simp_all add: stop d_def)
    also have "?stop - 0 + hop - 1 = d + hop"
      unfolding stop by simp
    also have "(d + hop) div hop = d div hop + 1"
      using assms(4) by simp
    finally have "length ?frames = nat (d div hop + 1)" .
    moreover have "0 \<le> d div hop"
      using d0 assms(4) by (simp add: pos_imp_zdiv_nonneg_iff)
    ultimately have "int (length ?frames) = d div hop + 1" by simp
    then show ?thesis by (simp only: d_def)
  qed
  from run nth short count show ?thesis by blast
qed

text \<open>
  Seven samples at \<open>sr = 10\<close> with a window and a hop of 0.3 seconds (the double nearest
  to 0.3): each product is rounded to 3.0, so there are two frames of three samples,
  starting at 0 and 3. Two samples give no frame.
\<close>

theorem frame_audio_frames_witness:
  "sample_count (Fin (5404319552844595 / 18014398509481984)) 10 = Inr 3
   \<and> frame_audio [1, 2, 3, 4, 5, 6, 7 :: int] 10
        (Fin (5404319552844595 / 18014398509481984)) (Fin (5404319552844595 / 18014398509481984))
       = Inr [([1, 2, 3], 10), ([4, 5, 6], 10)]
   \<and> int (length [([1, 2, 3 :: int], 10 :: int), ([4, 5, 6], 10)]) = (7 - 3) div 3 + 1
   \<and> frame_audio [1, 2 :: int] 10
        (Fin (5404319552844595 / 18014398509481984)) (Fin (5404319552844595 / 18014398509481984))
       = Inr []"
proof -
  let ?s = "Fin (5404319552844595 / 18014398509481984)"
  have w: "sample_count ?s 10 = Inr 3" by (rule sample_count_03s_10)
  have e: "frame_audio [1, 2, 3, 4, 5, 6, 7 :: int] 10 ?s ?s
             = Inr [([1, 2, 3], 10), ([4, 5, 6], 10)]"
    by (simp add: frame_audio_def w py_slice_def frame_loop.simps Let_def)
  from frame_audio_frames [OF w w, of "[1, 2 :: int]"]
  have "frame_audio [1, 2 :: int] 10 ?s ?s = Inr []" by auto
  with e w show ?thesis by simp
qed

subsection \<open>What reaches the feature computation\<close>







end
